theory Spec2Isabelle
  imports Complex_Main "HOL-Library.Product_Lexorder" "HOL-Library.Multiset"
begin

section \<open>The JavaScript runtime, as far as the services use it\<close>

text \<open>
  Strings are lists of characters; the model is exact on ASCII text, where a character, a
  UTF-16 code unit and a byte coincide. Exceptions are values of \<open>js_error\<close>, and a
  computation that may throw returns \<open>js_error + 'a\<close> with \<open>Inl\<close> for the exception.
\<close>

datatype js_error = TypeError | RejectedPromise string

text \<open>\<open>String.prototype.toLowerCase\<close> and \<open>String.prototype.trim\<close> on ASCII.\<close>

definition toLowerChar :: "char \<Rightarrow> char" where
  "toLowerChar c =
     (case map_of (zip ''ABCDEFGHIJKLMNOPQRSTUVWXYZ'' ''abcdefghijklmnopqrstuvwxyz'') c of
        Some d \<Rightarrow> d
      | None \<Rightarrow> c)"

definition toLowerCase :: "string \<Rightarrow> string" where
  "toLowerCase s = map toLowerChar s"

definition isWhiteSpace :: "char \<Rightarrow> bool" where
  "isWhiteSpace c = (c \<in> set [CHR 0x20, CHR 0x09, CHR 0x0A, CHR 0x0B, CHR 0x0C, CHR 0x0D])"

definition trim :: "string \<Rightarrow> string" where
  "trim s = rev (dropWhile isWhiteSpace (rev (dropWhile isWhiteSpace s)))"

text \<open>\<open>String.prototype.includes\<close> and \<open>Array.prototype.includes\<close>.\<close>

fun str_includes :: "'a list \<Rightarrow> 'a list \<Rightarrow> bool" where
  "str_includes [] sub = (sub = [])"
| "str_includes (c # cs) sub = (take (length sub) (c # cs) = sub \<or> str_includes cs sub)"

definition array_includes :: "'a list \<Rightarrow> 'a \<Rightarrow> bool" where
  "array_includes xs x = (x \<in> set xs)"

text \<open>Template-literal conversion of an integer: decimal digits, a minus sign when negative.\<close>

fun showNat :: "nat \<Rightarrow> string" where
  "showNat n =
     (if n < 10 then [''0123456789'' ! n]
      else showNat (n div 10) @ [''0123456789'' ! (n mod 10)])"

declare showNat.simps [simp del]

definition showInt :: "int \<Rightarrow> string" where
  "showInt i = (if i < 0 then ''-'' @ showNat (nat (- i)) else showNat (nat i))"

text \<open>
  \<open>Array.prototype.sort\<close> with a comparator. ECMAScript 2019 makes the sort stable, and for
  a consistent comparator the sorted, stable result is unique; insertion from the right
  computes it. The comparator's sign is all that is read: a negative or zero result leaves
  the first argument in front.
\<close>

fun insert_by :: "('a \<Rightarrow> 'a \<Rightarrow> int) \<Rightarrow> 'a \<Rightarrow> 'a list \<Rightarrow> 'a list" where
  "insert_by cmp x [] = [x]"
| "insert_by cmp x (y # ys) =
     (if cmp x y \<le> 0 then x # y # ys else y # insert_by cmp x ys)"

definition array_sort :: "('a \<Rightarrow> 'a \<Rightarrow> int) \<Rightarrow> 'a list \<Rightarrow> 'a list" where
  "array_sort cmp xs = foldr (insert_by cmp) xs []"

text \<open>\<open>Array.prototype.forEach\<close> passes each element with its index.\<close>

definition indexed :: "'a list \<Rightarrow> (nat \<times> 'a) list" where
  "indexed xs = zip [0..<length xs] xs"

text \<open>\<open>Array.prototype.join\<close> on an array of strings.\<close>

fun join :: "string \<Rightarrow> string list \<Rightarrow> string" where
  "join sep [] = []"
| "join sep [x] = x"
| "join sep (x # y # ys) = x @ sep @ join sep (y # ys)"

text \<open>
  \<open>Date\<close>: a valid date is its number of milliseconds since the epoch. The runtime supplies
  the current moment (\<open>new Date()\<close>) and the local time zone, here a fixed offset from UTC in
  minutes; daylight-saving changes are outside the model.
\<close>

record clock =
  nowMs :: int
  tzOffsetMin :: int

definition localMs :: "clock \<Rightarrow> int \<Rightarrow> int" where
  "localMs clk t = t + tzOffsetMin clk * 60000"

definition getHours :: "clock \<Rightarrow> int \<Rightarrow> nat" where
  "getHours clk t = nat ((localMs clk t div 3600000) mod 24)"

definition getMinutes :: "clock \<Rightarrow> int \<Rightarrow> nat" where
  "getMinutes clk t = nat ((localMs clk t div 60000) mod 60)"

text \<open>\<open>d.setHours(0, 0, 0, 0)\<close>: the local midnight at or before \<open>t\<close>.\<close>

definition startOfDay :: "clock \<Rightarrow> int \<Rightarrow> int" where
  "startOfDay clk t = t - (localMs clk t mod 86400000)"

text \<open>\<open>d.setDate(d.getDate() + n)\<close>.\<close>

definition addDays :: "int \<Rightarrow> int \<Rightarrow> int" where
  "addDays t n = t + n * 86400000"

text \<open>
  \<open>String.prototype.match\<close> with one of the regular expressions of \<open>parseCommand\<close>. The
  regular-expression engine is the runtime's: \<open>rx p s\<close> is the first capture group of the
  match of pattern \<open>p\<close> on \<open>s\<close>, and \<open>None\<close> when there is no match. Every pattern has
  exactly one capture group, and it takes part in every match.
\<close>

datatype pattern =
    RespondMessage      \<comment> \<open>\<^verbatim>\<open>/respond:?\s*(.*)/i\<close>\<close>
  | LaterAtTime         \<comment> \<open>\<^verbatim>\<open>/later\s+at\s+(\d+(?::\d+)?(?:\s*[ap]m)?)/i\<close>\<close>
  | ScheduleWhat        \<comment> \<open>\<^verbatim>\<open>/schedule\s+(.*?)(?=\s+(?:at|on|with|tomorrow|today|in|for))/i\<close>\<close>
  | ScheduleWhen        \<comment> \<open>\<^verbatim>\<open>/(?:at|on)\s+(.*?)(?=\s+(?:with|at|in|for)|$)/i\<close>\<close>
  | ScheduleWithWhom    \<comment> \<open>\<^verbatim>\<open>/with\s+(.*?)(?=\s+(?:at|in|for)|$)/i\<close>\<close>
  | ScheduleWhere       \<comment> \<open>\<^verbatim>\<open>/(?:at|in)\s+(.*?)(?=\s+for|$)/i\<close>\<close>
  | ReprioritizeId      \<comment> \<open>\<^verbatim>\<open>/reprioritize\s+(.*)/i\<close>\<close>

type_synonym regex_engine = "pattern \<Rightarrow> string \<Rightarrow> string option"

definition no_match :: regex_engine where
  "no_match p s = None"


section \<open>voiceProcessor.js: the intent parser\<close>

text \<open>
  A parsed command is the tagged union \<open>{type, payload}\<close>: one constructor for each of
  \<open>COMMAND_TYPES\<close>, carrying the fields of its payload.
\<close>

datatype parsed_command =
    READ_EMAILS
  | READ_AGENDA
  | IGNORE
  | RESPOND string                          \<comment> \<open>\<open>message\<close>\<close>
  | RESPOND_LATER "string option"           \<comment> \<open>\<open>time\<close>, \<open>null\<close> as \<open>None\<close>\<close>
  | SET_IMPORTANT bool                      \<comment> \<open>\<open>isImportant\<close>\<close>
  | CALENDAR_RESPONSE string                \<comment> \<open>\<open>response\<close>\<close>
  | SCHEDULE string string string string    \<comment> \<open>\<open>what\<close>, \<open>when\<close>, \<open>withWhom\<close>, \<open>where\<close>\<close>
  | REPRIORITIZE string                     \<comment> \<open>\<open>id\<close>\<close>
  | UNKNOWN

definition orElse :: "string option \<Rightarrow> string \<Rightarrow> string" where
  "orElse m d = (case m of Some g \<Rightarrow> g | None \<Rightarrow> d)"

definition parseCommand :: "regex_engine \<Rightarrow> string \<Rightarrow> parsed_command" where
  "parseCommand rx command0 =
    (let command = trim (toLowerCase command0) in
     if str_includes command ''read me my emails'' \<or> str_includes command ''read my emails'' then
       READ_EMAILS
     else if str_includes command ''tell me what i have to do today'' \<or>
             str_includes command ''what do i have to do today'' \<or>
             str_includes command ''read my agenda'' \<or>
             str_includes command ''read my calendar'' then
       READ_AGENDA
     else if str_includes command ''ignore'' then
       IGNORE
     else if str_includes command ''respond'' \<and> \<not> str_includes command ''respond later'' then
       RESPOND (orElse (rx RespondMessage command) [])
     else if str_includes command ''respond later'' then
       RESPOND_LATER (rx LaterAtTime command)
     else if str_includes command ''mark'' \<and>
             (str_includes command ''important'' \<or> str_includes command ''not important'') then
       (let isImportant = \<not> str_includes command ''not important''
        in SET_IMPORTANT isImportant)
     else if str_includes command ''accept'' \<or>
             str_includes command ''decline'' \<or>
             str_includes command ''maybe'' \<or>
             str_includes command ''find me a new time'' then
       (let response = ''accept'';
            response = (if str_includes command ''decline'' then ''decline'' else response);
            response = (if str_includes command ''maybe'' then ''maybe'' else response);
            response = (if str_includes command ''find me a new time'' then ''reschedule''
                        else response)
        in CALENDAR_RESPONSE response)
     else if str_includes command ''schedule'' then
       SCHEDULE (orElse (rx ScheduleWhat command) [])
                (orElse (rx ScheduleWhen command) [])
                (orElse (rx ScheduleWithWhom command) [])
                (orElse (rx ScheduleWhere command) [])
     else if str_includes command ''reprioritize'' then
       REPRIORITIZE (orElse (rx ReprioritizeId command) [])
     else
       UNKNOWN)"


section \<open>aiService.js: ranking and summaries\<close>

text \<open>
  The items the services read. A field is optional where the code guards its absence
  (\<open>from\<close>, \<open>location\<close>, \<open>attendees\<close>, \<open>description\<close>); \<open>from\<close> is the field \<open>sender\<close>
  and \<open>end\<close> the field \<open>endTime\<close>. Timestamps are valid dates. \<open>summaryLength\<close> is one of
  the four values the settings panel offers.
\<close>

record contact =
  name :: string
  email :: string

record email_item =
  sender :: "contact option"
  subject :: string
  body :: string
  timestamp :: int
  isRead :: bool
  isImportant :: bool
  hasAttachments :: bool

record event =
  title :: string
  start :: int
  endTime :: int
  location :: "string option"
  attendees :: "string list option"
  description :: "string option"
  responseStatus :: string
  importance :: string

datatype summary_length = Concise | Medium | Detailed | Everything

record settings =
  summaryLength :: summary_length
  priorityContacts :: "string list"
  reminderDefaultTime :: int

record conflict =
  event1 :: event
  event2 :: event
  overlapStart :: int
  overlapEnd :: int
  duration :: rat

abbreviation newline :: string where
  "newline \<equiv> [CHR 0x0A]"

definition formatTime :: "clock \<Rightarrow> int \<Rightarrow> string" where
  "formatTime clk date =
     (let hours = getHours clk date;
          minutes = getMinutes clk date;
          ampm = (if hours \<ge> 12 then ''pm'' else ''am'');
          hours12 = (if hours mod 12 = 0 then 12 else hours mod 12);
          minutesStr = (if minutes < 10 then ''0'' @ showNat minutes else showNat minutes)
      in showNat hours12 @ '':'' @ minutesStr @ ampm)"

text \<open>\<open>Math.round\<close> of a quotient of integers rounds a half towards plus infinity.\<close>

definition calculateDuration :: "int \<Rightarrow> int \<Rightarrow> string" where
  "calculateDuration startDate endDate =
     (let durationMinutes = (endDate - startDate + 30000) div 60000 in
      if durationMinutes < 60 then showInt durationMinutes @ '' minutes''
      else
        (let hours = durationMinutes div 60;
             minutes = durationMinutes mod 60
         in if minutes = 0 then
              showInt hours @ '' hour'' @ (if hours = 1 then [] else ''s'')
            else
              showInt hours @ '' hour'' @ (if hours = 1 then [] else ''s'') @ '' and '' @
              showInt minutes @ '' minute'' @ (if minutes = 1 then [] else ''s'')))"

subsection \<open>prioritizeItems\<close>

definition priorityContact :: "settings \<Rightarrow> email_item \<Rightarrow> bool" where
  "priorityContact s a =
     (case sender a of
        None \<Rightarrow> False
      | Some f \<Rightarrow> array_includes (priorityContacts s) (email f))"

definition prioritize_cmp :: "settings \<Rightarrow> email_item \<Rightarrow> email_item \<Rightarrow> int" where
  "prioritize_cmp s a b =
     (let aPriorityContact = priorityContact s a;
          bPriorityContact = priorityContact s b
      in if aPriorityContact \<and> \<not> bPriorityContact then - 1
         else if \<not> aPriorityContact \<and> bPriorityContact then 1
         else if isImportant a \<and> \<not> isImportant b then - 1
         else if \<not> isImportant a \<and> isImportant b then 1
         else timestamp b - timestamp a)"

definition prioritizeItems :: "email_item list \<Rightarrow> settings \<Rightarrow> email_item list" where
  "prioritizeItems items s = array_sort (prioritize_cmp s) items"

subsection \<open>generateEmailSummary\<close>

definition unreadCount :: "email_item list \<Rightarrow> nat" where
  "unreadCount emails = length (filter (\<lambda>e. \<not> isRead e) emails)"

definition importantCount :: "email_item list \<Rightarrow> nat" where
  "importantCount emails = length (filter isImportant emails)"

definition importance_cmp :: "email_item \<Rightarrow> email_item \<Rightarrow> int" where
  "importance_cmp a b =
     (if isImportant a \<and> \<not> isImportant b then - 1
      else if \<not> isImportant a \<and> isImportant b then 1
      else timestamp b - timestamp a)"

definition limits :: "summary_length \<rightharpoonup> nat" where
  "limits = [Concise \<mapsto> 3, Medium \<mapsto> 5, Detailed \<mapsto> 7]"

text \<open>\<open>slice(0, undefined)\<close> keeps the whole array.\<close>

definition emailsToSummarize :: "email_item list \<Rightarrow> settings \<Rightarrow> email_item list" where
  "emailsToSummarize emails s =
     (if summaryLength s \<noteq> Everything then
        (let sorted_emails = array_sort importance_cmp emails in
         if summaryLength s \<noteq> Everything then
           (case limits (summaryLength s) of
              Some n \<Rightarrow> take n sorted_emails
            | None \<Rightarrow> sorted_emails)
         else sorted_emails)
      else emails)"

definition emailIntro :: "email_item list \<Rightarrow> string" where
  "emailIntro emails =
     ''You have '' @ showNat (length emails) @ '' emails in your inbox, '' @
     showNat (unreadCount emails) @ '' unread'' @
     (if importantCount emails > 0 then
        '', with '' @ showNat (importantCount emails) @ '' marked as important''
      else []) @
     ''. Would you like to hear about them?'' @ newline @ newline"

text \<open>One round of the \<open>forEach\<close>; reading \<open>email.from.name\<close> of an email without \<open>from\<close> throws.\<close>

definition emailEntry :: "clock \<Rightarrow> settings \<Rightarrow> nat \<Rightarrow> email_item \<Rightarrow> js_error + string" where
  "emailEntry clk s index e =
     (let timeString = formatTime clk (timestamp e);
          importanceMarker = (if isImportant e then '' (Important)'' else []);
          readStatus = (if isRead e then [] else '' (Unread)'');
          attachmentInfo = (if hasAttachments e then '' (Has attachments)'' else [])
      in case sender e of
           None \<Rightarrow> Inl TypeError
         | Some f \<Rightarrow>
             Inr (showNat (index + 1) @ ''. From '' @ name f @ '' at '' @ timeString @
                  '', subject: '' @ subject e @ importanceMarker @ readStatus @
                  attachmentInfo @ ''.'' @ newline @
                  (if summaryLength s = Detailed \<or> summaryLength s = Everything then
                     (let bodyPreview =
                            (if length (body e) > 100 then take 100 (body e) @ ''...''
                             else body e)
                      in ''   Preview: '' @ bodyPreview @ newline)
                   else []) @
                  newline))"

fun forEachEmail ::
  "clock \<Rightarrow> settings \<Rightarrow> (nat \<times> email_item) list \<Rightarrow> string \<Rightarrow> js_error + string" where
  "forEachEmail clk s [] summary = Inr summary"
| "forEachEmail clk s ((index, e) # rest) summary =
     (case emailEntry clk s index e of
        Inl err \<Rightarrow> Inl err
      | Inr entry \<Rightarrow> forEachEmail clk s rest (summary @ entry))"

definition emailOutro :: string where
  \<open>emailOutro = ''You can say "ignore", "respond now", "respond later", or "mark as important" after each email.''\<close>

definition generateEmailSummary ::
  "clock \<Rightarrow> email_item list \<Rightarrow> settings \<Rightarrow> js_error + string" where
  "generateEmailSummary clk emails s =
     (case forEachEmail clk s (indexed (emailsToSummarize emails s)) (emailIntro emails) of
        Inl err \<Rightarrow> Inl err
      | Inr summary \<Rightarrow> Inr (summary @ emailOutro))"

subsection \<open>findScheduleConflicts\<close>

text \<open>
  The body of the inner loop for one pair; \<open>duration\<close> is the exact quotient that the
  floating-point division approximates.
\<close>

definition pairConflict :: "event \<Rightarrow> event \<Rightarrow> conflict list" where
  "pairConflict e1 e2 =
     (let start1 = start e1; end1 = endTime e1;
          start2 = start e2; end2 = endTime e2
      in if start1 < end2 \<and> start2 < end1 then
           (let overlapStart' = (if start1 > start2 then start1 else start2);
                overlapEnd' = (if end1 < end2 then end1 else end2)
            in [\<lparr>event1 = e1, event2 = e2,
                 overlapStart = overlapStart', overlapEnd = overlapEnd',
                 duration = of_int (overlapEnd' - overlapStart') / (1000 * 60)\<rparr>])
         else [])"

function innerLoop :: "event list \<Rightarrow> nat \<Rightarrow> nat \<Rightarrow> conflict list \<Rightarrow> conflict list" where
  "innerLoop events i j conflicts =
     (if j < length events then
        innerLoop events i (j + 1) (conflicts @ pairConflict (events ! i) (events ! j))
      else conflicts)"
  by pat_completeness auto
termination
  by (relation "measure (\<lambda>(events, i, j, conflicts). length events - j)") auto

declare innerLoop.simps [simp del]

function outerLoop :: "event list \<Rightarrow> nat \<Rightarrow> conflict list \<Rightarrow> conflict list" where
  "outerLoop events i conflicts =
     (if i < length events then
        outerLoop events (i + 1) (innerLoop events i (i + 1) conflicts)
      else conflicts)"
  by pat_completeness auto
termination
  by (relation "measure (\<lambda>(events, i, conflicts). length events - i)") auto

declare outerLoop.simps [simp del]

definition findScheduleConflicts :: "event list \<Rightarrow> conflict list" where
  "findScheduleConflicts events = outerLoop events 0 []"

subsection \<open>generateCalendarSummary\<close>

definition plural :: "nat \<Rightarrow> string" where
  "plural n = (if n = 1 then [] else ''s'')"

definition locationSuffix :: "event \<Rightarrow> string" where
  "locationSuffix e =
     (case location e of
        Some l \<Rightarrow> (if l \<noteq> [] then '' at '' @ l else [])
      | None \<Rightarrow> [])"

definition todayEntry :: "clock \<Rightarrow> settings \<Rightarrow> nat \<Rightarrow> event \<Rightarrow> string" where
  \<open>todayEntry clk s index e =
     (let startTime = formatTime clk (start e);
          duration' = calculateDuration (start e) (endTime e);
          location' = locationSuffix e;
          responseStatus' =
            (if responseStatus e = ''needsAction'' then
               '' (You haven't responded to this invitation yet)''
             else [])
      in showNat (index + 1) @ ''. At '' @ startTime @ '': '' @ title e @ location' @
         '', for '' @ duration' @ responseStatus' @ ''.'' @ newline @
         (if summaryLength s = Detailed \<or> summaryLength s = Everything then
            (case attendees e of
               Some as \<Rightarrow>
                 (if length as > 0 then ''   With: '' @ join '', '' as @ newline else [])
             | None \<Rightarrow> []) @
            (case description e of
               Some d \<Rightarrow>
                 (if d \<noteq> [] then
                    (let descriptionPreview =
                           (if length d > 100 then take 100 d @ ''...'' else d)
                     in ''   Details: '' @ descriptionPreview @ newline)
                  else [])
             | None \<Rightarrow> [])
          else []) @
         newline)\<close>

definition tomorrowEntry :: "clock \<Rightarrow> nat \<Rightarrow> event \<Rightarrow> string" where
  "tomorrowEntry clk index e =
     showNat (index + 1) @ ''. At '' @ formatTime clk (start e) @ '': '' @ title e @
     locationSuffix e @ ''.'' @ newline"

definition conflictEntry :: "clock \<Rightarrow> nat \<Rightarrow> conflict \<Rightarrow> string" where
  \<open>conflictEntry clk index c =
     showNat (index + 1) @ ''. "'' @ title (event1 c) @ ''" and "'' @ title (event2 c) @
     ''" overlap at '' @ formatTime clk (overlapStart c) @ ''.'' @ newline\<close>

definition priorityEntry :: "clock \<Rightarrow> nat \<Rightarrow> event \<Rightarrow> string" where
  "priorityEntry clk index e =
     showNat (index + 1) @ ''. '' @ title e @ '' at '' @ formatTime clk (start e) @ ''.'' @
     newline"

definition forEach :: "'a list \<Rightarrow> (nat \<Rightarrow> 'a \<Rightarrow> string) \<Rightarrow> string" where
  "forEach xs f = concat (map (\<lambda>(index, x). f index x) (indexed xs))"

definition calendarOutro :: string where
  \<open>calendarOutro = ''You can say "accept", "decline", "maybe", or "find me a new time" for any meeting that needs a response.''\<close>

definition generateCalendarSummary :: "clock \<Rightarrow> event list \<Rightarrow> settings \<Rightarrow> string" where
  "generateCalendarSummary clk events s =
     (let sortedEvents = array_sort (\<lambda>a b. start a - start b) events;
          today = startOfDay clk (nowMs clk);
          tomorrow = addDays today 1;
          dayAfterTomorrow = addDays today 2;
          todayEvents = filter (\<lambda>e. start e \<ge> today \<and> start e < tomorrow) sortedEvents;
          tomorrowEvents =
            filter (\<lambda>e. start e \<ge> tomorrow \<and> start e < dayAfterTomorrow) sortedEvents;
          conflicts = findScheduleConflicts sortedEvents;
          highPriorityEvents = filter (\<lambda>e. importance e = ''high'') sortedEvents
      in (if length todayEvents > 0 then
            ''You have '' @ showNat (length todayEvents) @ '' event'' @
            plural (length todayEvents) @ '' scheduled for today.'' @ newline @ newline @
            forEach todayEvents (todayEntry clk s)
          else ''You have no events scheduled for today.'' @ newline @ newline) @
         (if summaryLength s \<noteq> Concise \<and> length tomorrowEvents > 0 then
            ''For tomorrow, you have '' @ showNat (length tomorrowEvents) @ '' event'' @
            plural (length tomorrowEvents) @ '' scheduled.'' @ newline @ newline @
            (if summaryLength s \<noteq> Medium then
               forEach tomorrowEvents (tomorrowEntry clk) @ newline
             else [])
          else []) @
         (if length conflicts > 0 then
            ''Attention: I found the following schedule conflicts:'' @ newline @
            forEach conflicts (conflictEntry clk) @ newline
          else []) @
         (if summaryLength s \<noteq> Concise then
            (if length highPriorityEvents > 0 then
               ''Top priorities for today:'' @ newline @
               forEach (filter (\<lambda>e. start e < tomorrow) highPriorityEvents)
                 (priorityEntry clk) @
               newline
             else [])
          else []) @
         calendarOutro)"

subsection \<open>summarizeWithAI\<close>

text \<open>
  The options object, by its \<open>type\<close>: \<open>'emails'\<close> or \<open>'calendar'\<close> with the matching data.
  No caller passes another \<open>type\<close>.
\<close>

datatype summary_options =
    EmailsOptions "email_item list" settings
  | CalendarOptions "event list" settings

definition summarizeWithAI :: "clock \<Rightarrow> summary_options \<Rightarrow> js_error + string" where
  "summarizeWithAI clk options =
     (case options of
        EmailsOptions data s \<Rightarrow> generateEmailSummary clk data s
      | CalendarOptions data s \<Rightarrow> Inr (generateCalendarSummary clk data s))"


section \<open>voiceProcessor.js: the command dispatcher\<close>

text \<open>
  What \<open>processCommand\<close> takes from outside the two services: the runtime's clock and
  regular-expression engine, and the two collaborators, each of which resolves to a list of
  items or rejects. \<open>await\<close> is sequencing; \<open>console.error\<close> is not modelled.
\<close>

record world =
  clock :: clock
  regex :: regex_engine
  fetchEmails :: "settings \<Rightarrow> js_error + email_item list"
  fetchCalendarEvents :: "settings \<Rightarrow> js_error + event list"

record response =
  message :: string

definition andThen :: "js_error + 'a \<Rightarrow> ('a \<Rightarrow> js_error + 'b) \<Rightarrow> js_error + 'b" where
  "andThen m f = (case m of Inl err \<Rightarrow> Inl err | Inr v \<Rightarrow> f v)"

definition tryCatch :: "js_error + 'a \<Rightarrow> (js_error \<Rightarrow> js_error + 'a) \<Rightarrow> js_error + 'a" where
  "tryCatch m handler = (case m of Inl err \<Rightarrow> handler err | Inr v \<Rightarrow> Inr v)"

definition handleReadEmails :: "world \<Rightarrow> settings \<Rightarrow> js_error + response" where
  \<open>handleReadEmails w s =
     tryCatch
       (andThen (fetchEmails w s) (\<lambda>emails.
        andThen (summarizeWithAI (clock w) (EmailsOptions emails s)) (\<lambda>summary.
        Inr \<lparr>message = summary\<rparr>)))
       (\<lambda>error.
        Inr \<lparr>message = ''I'm sorry, I couldn't read your emails at this time. Please try again later.''\<rparr>)\<close>

definition handleReadAgenda :: "world \<Rightarrow> settings \<Rightarrow> js_error + response" where
  \<open>handleReadAgenda w s =
     tryCatch
       (andThen (fetchCalendarEvents w s) (\<lambda>events.
        andThen (summarizeWithAI (clock w) (CalendarOptions events s)) (\<lambda>summary.
        Inr \<lparr>message = summary\<rparr>)))
       (\<lambda>error.
        Inr \<lparr>message = ''I'm sorry, I couldn't read your agenda at this time. Please try again later.''\<rparr>)\<close>

definition handleRespond :: "string \<Rightarrow> settings \<Rightarrow> js_error + response" where
  \<open>handleRespond message' s =
     Inr \<lparr>message = ''I've drafted your response: "'' @ message' @
                     ''". Would you like me to send it now?''\<rparr>\<close>

text \<open>\<open>payload.time || ...\<close>: \<open>null\<close> and the empty string give the default.\<close>

definition handleRespondLater :: "string option \<Rightarrow> settings \<Rightarrow> js_error + response" where
  \<open>handleRespondLater time' s =
     (let dflt = ''in '' @ showInt (reminderDefaultTime s) @ '' minutes'';
          time = (case time' of Some t \<Rightarrow> (if t \<noteq> [] then t else dflt) | None \<Rightarrow> dflt)
      in Inr \<lparr>message = ''I'll remind you to respond to this '' @ time @ ''.''\<rparr>)\<close>

definition handleSetImportant :: "bool \<Rightarrow> settings \<Rightarrow> js_error + response" where
  \<open>handleSetImportant isImportant' s =
     (let status = (if isImportant' then ''important'' else ''not important'')
      in Inr \<lparr>message = ''I've marked this as '' @ status @ ''.''\<rparr>)\<close>

text \<open>
  \<open>responseMap\<close> with its own four keys; a name inherited from \<open>Object.prototype\<close> is not
  among them. \<open>responseMap[r] || ...\<close>: a missing key and an empty string give the default.
\<close>

definition responseMap :: "string \<rightharpoonup> string" where
  \<open>responseMap = map_of
     [(''accept'', ''I've accepted the meeting invitation.''),
      (''decline'', ''I've declined the meeting invitation.''),
      (''maybe'', ''I've tentatively accepted the meeting invitation.''),
      (''reschedule'', ''I'll look for alternative times for this meeting.'')]\<close>

definition handleCalendarResponse :: "string \<Rightarrow> settings \<Rightarrow> js_error + response" where
  \<open>handleCalendarResponse response' s =
     Inr \<lparr>message =
            (case responseMap response' of
               Some m \<Rightarrow> (if m \<noteq> [] then m else ''I've processed your calendar response.'')
             | None \<Rightarrow> ''I've processed your calendar response.'')\<rparr>\<close>

definition handleSchedule ::
  "string \<Rightarrow> string \<Rightarrow> string \<Rightarrow> string \<Rightarrow> settings \<Rightarrow> js_error + response" where
  \<open>handleSchedule what when withWhom whereAt s =
     (let message' = ''I'm scheduling '';
          message' = (if what \<noteq> [] then message' @ ''"'' @ what @ ''" '' else message');
          message' = (if when \<noteq> [] then message' @ ''for '' @ when @ '' '' else message');
          message' = (if withWhom \<noteq> [] then message' @ ''with '' @ withWhom @ '' ''
                      else message');
          message' = (if whereAt \<noteq> [] then message' @ ''at '' @ whereAt @ '' ''
                      else message');
          message' = message' @ ''. Is that correct?''
      in Inr \<lparr>message = message'\<rparr>)\<close>

definition handleReprioritize :: "string \<Rightarrow> settings \<Rightarrow> js_error + response" where
  \<open>handleReprioritize id' s = Inr \<lparr>message = ''I've reprioritized item '' @ id' @ ''.''\<rparr>\<close>

definition processCommand :: "world \<Rightarrow> string \<Rightarrow> settings \<Rightarrow> js_error + response" where
  \<open>processCommand w command s =
     (case parseCommand (regex w) command of
        READ_EMAILS \<Rightarrow> handleReadEmails w s
      | READ_AGENDA \<Rightarrow> handleReadAgenda w s
      | IGNORE \<Rightarrow> Inr \<lparr>message = ''I'll ignore that item.''\<rparr>
      | RESPOND message' \<Rightarrow> handleRespond message' s
      | RESPOND_LATER time' \<Rightarrow> handleRespondLater time' s
      | SET_IMPORTANT isImportant' \<Rightarrow> handleSetImportant isImportant' s
      | CALENDAR_RESPONSE response' \<Rightarrow> handleCalendarResponse response' s
      | SCHEDULE what when withWhom whereAt \<Rightarrow> handleSchedule what when withWhom whereAt s
      | REPRIORITIZE id' \<Rightarrow> handleReprioritize id' s
      | UNKNOWN \<Rightarrow>
          Inr \<lparr>message = ''I'm sorry, I didn't understand that command. Please try again.''\<rparr>)\<close>


section \<open>The specification's wording, for comparison\<close>

text \<open>
  The fallback chain as the specification words it: \<open>decline\<close> first, then \<open>maybe\<close>, then
  the reschedule phrase, and \<open>accept\<close> otherwise.
\<close>

definition spec_response :: "string \<Rightarrow> string" where
  "spec_response command =
     (if str_includes command ''decline'' then ''decline''
      else if str_includes command ''maybe'' then ''maybe''
      else if str_includes command ''find me a new time'' then ''reschedule''
      else ''accept'')"

text \<open>
  The ranking order of the specification: priority-contact membership, then the importance
  flag, then recency; the first key that discriminates decides. \<open>rank_tied\<close> is equality on
  all three keys, and \<open>rank_key\<close> the triple that is compared lexicographically.
\<close>

definition rank_precedes :: "settings \<Rightarrow> email_item \<Rightarrow> email_item \<Rightarrow> bool" where
  "rank_precedes s a b =
     (if priorityContact s a \<noteq> priorityContact s b then priorityContact s a
      else if isImportant a \<noteq> isImportant b then isImportant a
      else timestamp a > timestamp b)"

definition rank_tied :: "settings \<Rightarrow> email_item \<Rightarrow> email_item \<Rightarrow> bool" where
  "rank_tied s a b =
     (priorityContact s a = priorityContact s b \<and> isImportant a = isImportant b \<and>
      timestamp a = timestamp b)"

definition rank_key :: "settings \<Rightarrow> email_item \<Rightarrow> bool \<times> bool \<times> int" where
  "rank_key s a = (\<not> priorityContact s a, \<not> isImportant a, - timestamp a)"

text \<open>
  The narrated subset as the specification words it: the list sorted by importance flag and
  then recency, cut to 3, 5, 7 or all items, at every verbosity.
\<close>

definition importance_key :: "email_item \<Rightarrow> bool \<times> int" where
  "importance_key a = (\<not> isImportant a, - timestamp a)"

definition importance_precedes :: "email_item \<Rightarrow> email_item \<Rightarrow> bool" where
  "importance_precedes a b =
     (if isImportant a \<noteq> isImportant b then isImportant a else timestamp a > timestamp b)"

definition spec_limit :: "summary_length \<Rightarrow> email_item list \<Rightarrow> nat" where
  "spec_limit l emails =
     (case l of Concise \<Rightarrow> 3 | Medium \<Rightarrow> 5 | Detailed \<Rightarrow> 7 | Everything \<Rightarrow> length emails)"

definition spec_emailsToSummarize :: "email_item list \<Rightarrow> settings \<Rightarrow> email_item list" where
  "spec_emailsToSummarize emails s =
     take (spec_limit (summaryLength s) emails) (sort_key importance_key emails)"

text \<open>
  \<open>importance_tied\<close> is equality on both keys of that order. \<open>narration\<close> is the text of
  the numbered entries of a list of emails, as the \<open>forEach\<close> of the summary writes them,
  and \<open>spec_generateEmailSummary\<close> the report that narrates the subset of the specification.
\<close>

definition importance_tied :: "email_item \<Rightarrow> email_item \<Rightarrow> bool" where
  "importance_tied a b = (isImportant a = isImportant b \<and> timestamp a = timestamp b)"

definition narration :: "clock \<Rightarrow> settings \<Rightarrow> email_item list \<Rightarrow> string" where
  "narration clk s es =
     concat (map (\<lambda>(index, e). case emailEntry clk s index e of
                                   Inr entry \<Rightarrow> entry
                                 | Inl err \<Rightarrow> [])
                 (indexed es))"

definition spec_generateEmailSummary ::
  "clock \<Rightarrow> email_item list \<Rightarrow> settings \<Rightarrow> js_error + string" where
  "spec_generateEmailSummary clk emails s =
     Inr (emailIntro emails @ narration clk s (spec_emailsToSummarize emails s) @ emailOutro)"

text \<open>The handler as the specification words it: fetch, then rank, then summarize.\<close>

definition spec_readEmails :: "world \<Rightarrow> settings \<Rightarrow> js_error + response" where
  \<open>spec_readEmails w s =
     tryCatch
       (andThen (fetchEmails w s) (\<lambda>emails.
        andThen (generateEmailSummary (clock w) (prioritizeItems emails s) s) (\<lambda>summary.
        Inr \<lparr>message = summary\<rparr>)))
       (\<lambda>error.
        Inr \<lparr>message = ''I'm sorry, I couldn't read your emails at this time. Please try again later.''\<rparr>)\<close>

text \<open>
  Overlaps as the specification words them: the pairs \<open>i < j\<close> whose half-open intervals
  \<open>[start, end)\<close> intersect, in index order, with the later start and the earlier end.
  \<open>overlapTest\<close> is the comparison the loop body makes.
\<close>

definition spec_intersect :: "event \<Rightarrow> event \<Rightarrow> bool" where
  "spec_intersect a b = ({start a..<endTime a} \<inter> {start b..<endTime b} \<noteq> {})"

definition overlapTest :: "event \<Rightarrow> event \<Rightarrow> bool" where
  "overlapTest a b = (start a < endTime b \<and> start b < endTime a)"

definition spec_conflict :: "event \<Rightarrow> event \<Rightarrow> conflict" where
  "spec_conflict a b =
     \<lparr>event1 = a, event2 = b,
      overlapStart = max (start a) (start b),
      overlapEnd = min (endTime a) (endTime b),
      duration = of_int (min (endTime a) (endTime b) - max (start a) (start b)) / 60000\<rparr>"

definition pairsBy :: "(event \<Rightarrow> event \<Rightarrow> bool) \<Rightarrow> event list \<Rightarrow> conflict list" where
  "pairsBy test events =
     concat (map (\<lambda>i. concat (map (\<lambda>j. if test (events ! i) (events ! j)
                                          then [spec_conflict (events ! i) (events ! j)]
                                          else [])
                                  [i + 1..<length events]))
                 [0..<length events])"

definition spec_findOverlaps :: "event list \<Rightarrow> conflict list" where
  "spec_findOverlaps events = pairsBy spec_intersect events"


section \<open>Example inputs\<close>

text \<open>Noon, evening and the next noon, UTC, on 10 and 11 May 2024.\<close>

definition clkNoon :: clock where
  "clkNoon = \<lparr>nowMs = 1715342400000, tzOffsetMin = 0\<rparr>"

definition clkEvening :: clock where
  "clkEvening = \<lparr>nowMs = 1715364000000, tzOffsetMin = 0\<rparr>"

definition clkNextDay :: clock where
  "clkNextDay = \<lparr>nowMs = 1715428800000, tzOffsetMin = 0\<rparr>"

definition settingsConcise :: settings where
  "settingsConcise =
     \<lparr>summaryLength = Concise, priorityContacts = [], reminderDefaultTime = 60\<rparr>"

definition settingsEverything :: settings where
  "settingsEverything =
     \<lparr>summaryLength = Everything, priorityContacts = [''bob@example.com''],
      reminderDefaultTime = 60\<rparr>"

definition mailOld :: email_item where
  "mailOld = \<lparr>sender = Some \<lparr>name = ''Ann'', email = ''ann@example.com''\<rparr>,
              subject = ''Minutes'', body = ''See notes.'', timestamp = 1715331600000,
              isRead = False, isImportant = False, hasAttachments = False\<rparr>"

definition mailTwin :: email_item where
  "mailTwin = \<lparr>sender = Some \<lparr>name = ''Cy'', email = ''cy@example.com''\<rparr>,
               subject = ''Agenda'', body = ''Draft attached.'', timestamp = 1715331600000,
               isRead = True, isImportant = False, hasAttachments = True\<rparr>"

definition mailNew :: email_item where
  "mailNew = \<lparr>sender = Some \<lparr>name = ''Bob'', email = ''bob@example.com''\<rparr>,
              subject = ''Lunch'', body = ''At noon?'', timestamp = 1715335200000,
              isRead = True, isImportant = False, hasAttachments = False\<rparr>"

definition mailUrgent :: email_item where
  "mailUrgent = \<lparr>sender = Some \<lparr>name = ''Dee'', email = ''dee@example.com''\<rparr>,
                 subject = ''Outage'', body = ''Please call.'', timestamp = 1715328000000,
                 isRead = False, isImportant = True, hasAttachments = False\<rparr>"

definition mailNote :: email_item where
  "mailNote = \<lparr>sender = Some \<lparr>name = ''Eve'', email = ''eve@example.com''\<rparr>,
               subject = ''Receipt'', body = ''Thanks.'', timestamp = 1715324400000,
               isRead = True, isImportant = False, hasAttachments = False\<rparr>"

definition inbox :: "email_item list" where
  "inbox = [mailOld, mailTwin, mailNew, mailUrgent, mailNote]"

text \<open>Events on 10 May 2024: 9:00 to 10:00, 9:30 to 10:30, 11:00 to 12:00, and one of no length at noon inside a workshop from 11:00 to 13:00.\<close>

definition evStandup :: event where
  "evStandup = \<lparr>title = ''A'', start = 1715331600000, endTime = 1715335200000,
                location = None, attendees = None, description = None,
                responseStatus = ''accepted'', importance = ''medium''\<rparr>"

definition evReview :: event where
  "evReview = \<lparr>title = ''B'', start = 1715333400000, endTime = 1715337000000,
               location = Some ''Room 1'', attendees = Some [''ann@example.com''],
               description = Some ''Quarter plan'',
               responseStatus = ''needsAction'', importance = ''high''\<rparr>"

definition evLunch :: event where
  "evLunch = \<lparr>title = ''C'', start = 1715338800000, endTime = 1715342400000,
              location = None, attendees = None, description = None,
              responseStatus = ''accepted'', importance = ''medium''\<rparr>"

definition evReminder :: event where
  "evReminder = \<lparr>title = ''Reminder'', start = 1715342400000, endTime = 1715342400000,
                 location = None, attendees = None, description = None,
                 responseStatus = ''accepted'', importance = ''medium''\<rparr>"

definition evWorkshop :: event where
  "evWorkshop = \<lparr>title = ''Workshop'', start = 1715338800000, endTime = 1715346000000,
                 location = None, attendees = None, description = None,
                 responseStatus = ''accepted'', importance = ''medium''\<rparr>"

definition worldUp :: world where
  "worldUp = \<lparr>clock = clkNoon, regex = no_match,
              fetchEmails = (\<lambda>s. Inr [mailOld, mailNew]),
              fetchCalendarEvents = (\<lambda>s. Inr [evStandup])\<rparr>"

definition worldDown :: world where
  "worldDown = \<lparr>clock = clkNoon, regex = no_match,
                fetchEmails = (\<lambda>s. Inl (RejectedPromise ''offline'')),
                fetchCalendarEvents = (\<lambda>s. Inl (RejectedPromise ''offline''))\<rparr>"


section \<open>Facts about the runtime model\<close>

lemmas eval_text = toLowerCase_def toLowerChar_def trim_def isWhiteSpace_def

lemmas eval_time = formatTime_def getHours_def getMinutes_def localMs_def startOfDay_def
  addDays_def calculateDuration_def showInt_def showNat.simps

text \<open>\<open>str_includes\<close> is the substring test.\<close>

lemma str_includes_iff: "str_includes s sub \<longleftrightarrow> (\<exists>pre post. s = pre @ sub @ post)"
proof (induction s)
  case Nil
  then show ?case by simp
next
  case (Cons c cs)
  show ?case
  proof
    assume "str_includes (c # cs) sub"
    then consider "take (length sub) (c # cs) = sub" | "str_includes cs sub" by auto
    then show "\<exists>pre post. c # cs = pre @ sub @ post"
    proof cases
      case 1
      then have "c # cs = [] @ sub @ drop (length sub) (c # cs)"
        by (metis append_Nil append_take_drop_id)
      then show ?thesis by blast
    next
      case 2
      then obtain pre post where "cs = pre @ sub @ post" using Cons.IH by blast
      then have "c # cs = (c # pre) @ sub @ post" by simp
      then show ?thesis by blast
    qed
  next
    assume "\<exists>pre post. c # cs = pre @ sub @ post"
    then obtain pre post where eq: "c # cs = pre @ sub @ post" by blast
    show "str_includes (c # cs) sub"
    proof (cases pre)
      case Nil
      with eq have "take (length sub) (c # cs) = sub" by simp
      then show ?thesis by simp
    next
      case (Cons p pre')
      with eq have "cs = pre' @ sub @ post" by simp
      then have "str_includes cs sub" using Cons.IH by blast
      then show ?thesis by simp
    qed
  qed
qed

text \<open>
  With a comparator that decides a linear order on keys, \<open>array_sort\<close> is the stable
  sort by that key.
\<close>

lemma insert_by_insort_key:
  assumes "\<And>a b. cmp a b \<le> 0 \<longleftrightarrow> k a \<le> (k b :: 'k :: linorder)"
  shows "insert_by cmp x xs = insort_key k x xs"
  by (induction xs) (simp_all add: assms)

lemma array_sort_sort_key:
  assumes "\<And>a b. cmp a b \<le> 0 \<longleftrightarrow> k a \<le> (k b :: 'k :: linorder)"
  shows "array_sort cmp xs = sort_key k xs"
proof -
  have "insert_by cmp = insort_key k"
    using insert_by_insort_key [of cmp k, OF assms] by blast
  then show ?thesis by (simp add: array_sort_def sort_key_def)
qed


section \<open>The intent parser\<close>

text \<open>
  C8. An utterance whose lower-cased, trimmed form contains \<open>read me my emails\<close> parses to
  \<open>READ_EMAILS\<close>, whatever text surrounds the phrase and whatever the regular-expression
  engine does.
\<close>

theorem parse_read_me_my_emails:
  assumes "trim (toLowerCase u) = pre @ ''read me my emails'' @ post"
  shows "parseCommand rx u = READ_EMAILS"
proof -
  have "str_includes (trim (toLowerCase u)) ''read me my emails''"
    using assms str_includes_iff by blast
  then show ?thesis by (simp add: parseCommand_def)
qed

text \<open>C8, at an utterance with text on both sides of the phrase, capitals and a trailing space.\<close>

theorem parse_read_me_my_emails_witness:
  "trim (toLowerCase ''Hey, READ me my emails now '') =
     ''hey, '' @ ''read me my emails'' @ '' now'' \<and>
   parseCommand no_match ''Hey, READ me my emails now '' = READ_EMAILS"
proof -
  have h: "trim (toLowerCase ''Hey, READ me my emails now '') =
             ''hey, '' @ ''read me my emails'' @ '' now''"
    by (simp add: eval_text)
  show ?thesis using h parse_read_me_my_emails [OF h, of no_match] by simp
qed

text \<open>
  C1, as the code has it. The three tests run in the order \<open>decline\<close>, \<open>maybe\<close>, reschedule
  phrase, and each one that succeeds overwrites the result, so the last match wins: the
  \<open>response\<close> of a \<open>CALENDAR_RESPONSE\<close> is \<open>reschedule\<close> if the reschedule phrase is present,
  otherwise \<open>maybe\<close> if \<open>maybe\<close> is present, otherwise \<open>decline\<close> if \<open>decline\<close> is present, and
  \<open>accept\<close> otherwise.
\<close>

theorem calendar_response_last_match_wins:
  assumes "parseCommand rx u = CALENDAR_RESPONSE r"
  shows "r = (if str_includes (trim (toLowerCase u)) ''find me a new time'' then ''reschedule''
              else if str_includes (trim (toLowerCase u)) ''maybe'' then ''maybe''
              else if str_includes (trim (toLowerCase u)) ''decline'' then ''decline''
              else ''accept'')"
  using assms by (simp add: parseCommand_def Let_def split: if_splits)

text \<open>C1, as the code has it, at an utterance with all three keywords.\<close>

theorem calendar_response_last_match_wins_witness:
  "parseCommand no_match ''Decline it, or maybe find me a new time'' =
     CALENDAR_RESPONSE ''reschedule'' \<and>
   str_includes (trim (toLowerCase ''Decline it, or maybe find me a new time''))
     ''find me a new time''"
proof -
  have h: "parseCommand no_match ''Decline it, or maybe find me a new time'' =
             CALENDAR_RESPONSE ''reschedule''"
    by (simp add: parseCommand_def eval_text)
  show ?thesis
    using h calendar_response_last_match_wins [OF h] by (simp split: if_splits)
qed

text \<open>
  C1, as the specification words it, fails: \<open>decline maybe\<close> is a \<open>CALENDAR_RESPONSE\<close> with
  \<open>decline\<close> present, and its response is \<open>maybe\<close>, where the worded chain gives \<open>decline\<close>.
\<close>

theorem calendar_response_precedence_counterexample:
  "parseCommand no_match ''decline maybe'' = CALENDAR_RESPONSE ''maybe'' \<and>
   str_includes (trim (toLowerCase ''decline maybe'')) ''decline'' \<and>
   spec_response (trim (toLowerCase ''decline maybe'')) = ''decline''"
  by (simp add: parseCommand_def spec_response_def eval_text)

text \<open>
  C10. The \<open>response\<close> of every \<open>CALENDAR_RESPONSE\<close> the parser produces is one of \<open>accept\<close>,
  \<open>decline\<close>, \<open>maybe\<close>, \<open>reschedule\<close>; so the lookup in \<open>responseMap\<close> succeeds with a
  non-empty sentence, which is the handler's message, and the handler's default message is
  not returned.
\<close>

theorem calendar_response_closed:
  assumes "parseCommand rx u = CALENDAR_RESPONSE r"
  shows "r \<in> {''accept'', ''decline'', ''maybe'', ''reschedule''} \<and>
         (\<exists>m. responseMap r = Some m \<and> m \<noteq> [] \<and>
              handleCalendarResponse r s = Inr \<lparr>message = m\<rparr>) \<and>
         handleCalendarResponse r s \<noteq>
           Inr \<lparr>message = ''I've processed your calendar response.''\<rparr>"
proof -
  have r: "r \<in> {''accept'', ''decline'', ''maybe'', ''reschedule''}"
    using assms by (simp add: parseCommand_def Let_def split: if_splits)
  then have "\<exists>m. responseMap r = Some m \<and> m \<noteq> [] \<and>
                 handleCalendarResponse r s = Inr \<lparr>message = m\<rparr>"
    by (auto simp add: responseMap_def handleCalendarResponse_def)
  moreover from r have "handleCalendarResponse r s \<noteq>
                          Inr \<lparr>message = ''I've processed your calendar response.''\<rparr>"
    by (auto simp add: responseMap_def handleCalendarResponse_def)
  ultimately show ?thesis using r by blast
qed

text \<open>C10, at an utterance that accepts.\<close>

theorem calendar_response_closed_witness:
  "parseCommand no_match ''Accept the invite'' = CALENDAR_RESPONSE ''accept'' \<and>
   handleCalendarResponse ''accept'' settingsConcise =
     Inr \<lparr>message = ''I've accepted the meeting invitation.''\<rparr>"
proof -
  have h: "parseCommand no_match ''Accept the invite'' = CALENDAR_RESPONSE ''accept''"
    by (simp add: parseCommand_def eval_text)
  show ?thesis
    using h calendar_response_closed [OF h, of settingsConcise]
    by (simp add: responseMap_def handleCalendarResponse_def)
qed


section \<open>The priority ranker\<close>

lemma prioritize_cmp_key: "prioritize_cmp s a b \<le> 0 \<longleftrightarrow> rank_key s a \<le> rank_key s b"
  by (auto simp add: prioritize_cmp_def rank_key_def Let_def less_eq_prod_def)

lemma prioritize_cmp_sign:
  "(prioritize_cmp s a b < 0 \<longleftrightarrow> rank_precedes s a b) \<and>
   (prioritize_cmp s a b > 0 \<longleftrightarrow> rank_precedes s b a) \<and>
   (prioritize_cmp s a b = 0 \<longleftrightarrow> rank_tied s a b)"
  by (auto simp add: prioritize_cmp_def rank_precedes_def rank_tied_def Let_def)

lemma rank_precedes_key: "rank_precedes s a b \<longleftrightarrow> rank_key s a < rank_key s b"
  by (auto simp add: rank_precedes_def rank_key_def less_prod_def)

lemma rank_tied_key: "rank_tied s a b \<longleftrightarrow> rank_key s b = rank_key s a"
  by (auto simp add: rank_tied_def rank_key_def)

lemma prioritizeItems_sort_key: "prioritizeItems items s = sort_key (rank_key s) items"
  unfolding prioritizeItems_def
  by (rule array_sort_sort_key) (rule prioritize_cmp_key)

text \<open>
  C6. \<open>prioritizeItems\<close> returns a permutation of its input in which no item is behind one
  that it precedes in the three-key order (priority contact, then importance flag, then the
  greater timestamp, the first key that differs deciding); items tied on all three keys
  keep their input order; and the comparator is negative exactly when its first argument
  precedes the second in that order, positive exactly when the second precedes the first,
  and zero exactly on a tie.
\<close>

theorem prioritizeItems_stable_three_key_sort:
  "mset (prioritizeItems items s) = mset items \<and>
   sorted_wrt (\<lambda>a b. \<not> rank_precedes s b a) (prioritizeItems items s) \<and>
   (\<forall>x. filter (rank_tied s x) (prioritizeItems items s) = filter (rank_tied s x) items) \<and>
   (\<forall>a b. (prioritize_cmp s a b < 0 \<longleftrightarrow> rank_precedes s a b) \<and>
          (prioritize_cmp s a b > 0 \<longleftrightarrow> rank_precedes s b a) \<and>
          (prioritize_cmp s a b = 0 \<longleftrightarrow> rank_tied s a b))"
proof -
  have "sorted (map (rank_key s) (sort_key (rank_key s) items))" by simp
  then have "sorted_wrt (\<lambda>a b. rank_key s a \<le> rank_key s b) (sort_key (rank_key s) items)"
    by (simp add: sorted_map)
  then have "sorted_wrt (\<lambda>a b. \<not> rank_precedes s b a) (sort_key (rank_key s) items)"
    by (rule sorted_wrt_mono_rel [rotated]) (simp add: rank_precedes_key)
  moreover have "filter (rank_tied s x) (sort_key (rank_key s) items) =
                 filter (rank_tied s x) items" for x
  proof -
    have "rank_tied s x = (\<lambda>y. rank_key s y = rank_key s x)"
      by (rule ext) (simp add: rank_tied_key)
    then show ?thesis
      using sort_key_stable [of "rank_key s" "rank_key s x" items] by simp
  qed
  ultimately show ?thesis
    using prioritize_cmp_sign by (simp add: prioritizeItems_sort_key)
qed

text \<open>
  C6, at five emails: Bob is a priority contact, Dee's email is the only important one, and
  Ann's and Cy's are tied on all three keys and stay in their input order.
\<close>

theorem prioritizeItems_stable_three_key_sort_witness:
  "prioritizeItems inbox settingsEverything = [mailNew, mailUrgent, mailOld, mailTwin, mailNote] \<and>
   rank_tied settingsEverything mailOld mailTwin \<and>
   filter (rank_tied settingsEverything mailOld) (prioritizeItems inbox settingsEverything) =
     [mailOld, mailTwin]"
proof -
  have tied: "rank_tied settingsEverything mailOld mailTwin"
    by (simp add: rank_tied_def priorityContact_def array_includes_def settingsEverything_def
          mailOld_def mailTwin_def)
  have "filter (rank_tied settingsEverything mailOld) inbox = [mailOld, mailTwin]"
    by (simp add: inbox_def rank_tied_def priorityContact_def array_includes_def
          settingsEverything_def mailOld_def mailTwin_def mailNew_def mailUrgent_def
          mailNote_def)
  moreover have "prioritizeItems inbox settingsEverything =
                   [mailNew, mailUrgent, mailOld, mailTwin, mailNote]"
    by (simp add: prioritizeItems_def array_sort_def prioritize_cmp_def priorityContact_def
          array_includes_def inbox_def settingsEverything_def mailOld_def mailTwin_def
          mailNew_def mailUrgent_def mailNote_def)
  ultimately show ?thesis
    using tied prioritizeItems_stable_three_key_sort [of inbox settingsEverything] by simp
qed


section \<open>The email summary\<close>

lemmas eval_emails = generateEmailSummary_def emailsToSummarize_def emailIntro_def
  emailEntry_def emailOutro_def unreadCount_def importantCount_def indexed_def array_sort_def
  importance_cmp_def limits_def upt_rec

lemma importance_cmp_key:
  "importance_cmp a b \<le> 0 \<longleftrightarrow> importance_key a \<le> importance_key b"
  by (auto simp add: importance_cmp_def importance_key_def less_eq_prod_def)

lemma importance_precedes_key:
  "importance_precedes a b \<longleftrightarrow> importance_key a < importance_key b"
  by (auto simp add: importance_precedes_def importance_key_def less_prod_def)

lemma importance_sort_key: "array_sort importance_cmp emails = sort_key importance_key emails"
  by (rule array_sort_sort_key) (rule importance_cmp_key)

lemma importance_sort_ordered:
  "sorted_wrt (\<lambda>a b. \<not> importance_precedes b a) (sort_key importance_key emails)"
proof -
  have "sorted (map importance_key (sort_key importance_key emails))" by simp
  then have "sorted_wrt (\<lambda>a b. importance_key a \<le> importance_key b)
               (sort_key importance_key emails)"
    by (simp add: sorted_map)
  then show ?thesis
    by (rule sorted_wrt_mono_rel [rotated]) (simp add: importance_precedes_key)
qed

lemma emailsToSummarize_eq:
  "emailsToSummarize emails s =
     (if summaryLength s = Everything then emails else spec_emailsToSummarize emails s)"
  by (cases "summaryLength s")
     (simp_all add: emailsToSummarize_def spec_emailsToSummarize_def spec_limit_def
        limits_def importance_sort_key)

lemma set_emailsToSummarize: "set (emailsToSummarize emails s) \<subseteq> set emails"
proof (cases "summaryLength s = Everything")
  case True
  then show ?thesis by (simp add: emailsToSummarize_def)
next
  case False
  have "set (take n (sort_key importance_key emails)) \<subseteq> set emails" for n
    using set_take_subset [of n "sort_key importance_key emails"] by simp
  with False show ?thesis
    by (simp add: emailsToSummarize_def importance_sort_key Let_def split: option.split)
qed

lemma forEachEmail_extends:
  assumes "\<forall>p \<in> set ies. sender (snd p) \<noteq> None"
  shows "\<exists>rest. forEachEmail clk s ies summary = Inr (summary @ rest)"
  using assms
proof (induction ies arbitrary: summary)
  case Nil
  then show ?case by simp
next
  case (Cons p ies)
  obtain index e where p: "p = (index, e)" by (cases p)
  from Cons.prems p obtain f where f: "sender e = Some f" by auto
  then obtain entry where entry: "emailEntry clk s index e = Inr entry"
    by (simp add: emailEntry_def Let_def)
  from Cons.prems have "\<forall>p \<in> set ies. sender (snd p) \<noteq> None" by simp
  from Cons.IH [OF this, of "summary @ entry"]
  obtain rest where "forEachEmail clk s ies (summary @ entry) = Inr ((summary @ entry) @ rest)"
    by blast
  with p entry have "forEachEmail clk s (p # ies) summary = Inr (summary @ (entry @ rest))"
    by simp
  then show ?case by blast
qed

lemma indexed_snd: "p \<in> set (indexed xs) \<Longrightarrow> snd p \<in> set xs"
  unfolding indexed_def by (cases p) (auto dest: set_zip_rightD)

lemma importance_tied_key: "importance_tied a b \<longleftrightarrow> importance_key b = importance_key a"
  by (auto simp add: importance_tied_def importance_key_def)

lemma importance_sort_stable:
  "filter (importance_tied x) (sort_key importance_key emails) =
   filter (importance_tied x) emails"
proof -
  have "importance_tied x = (\<lambda>y. importance_key y = importance_key x)"
    by (rule ext) (simp add: importance_tied_key)
  then show ?thesis
    using sort_key_stable [of importance_key "importance_key x" emails] by simp
qed

lemma importance_sort_permuted:
  assumes "mset emails' = mset emails"
    and "\<forall>a \<in> set emails. \<forall>b \<in> set emails. importance_tied a b \<longrightarrow> a = b"
  shows "sort_key importance_key emails' = sort_key importance_key emails"
proof (rule sort_key_inj_key_eq)
  show "mset emails' = mset (sort_key importance_key emails)"
    using assms(1) by simp
  have "set emails' = set emails"
    using assms(1) by (rule mset_eq_setD)
  with assms(2) show "inj_on importance_key (set emails')"
    by (auto simp add: inj_on_def importance_tied_key)
  show "sorted (map importance_key (sort_key importance_key emails))"
    by simp
qed

lemma emailIntro_permuted:
  assumes "mset emails' = mset emails"
  shows "emailIntro emails' = emailIntro emails"
proof -
  have l: "length emails' = length emails"
    using assms by (rule mset_eq_length)
  have "mset (filter P emails') = mset (filter P emails)" for P
    using assms by simp
  then have "length (filter P emails') = length (filter P emails)" for P
    by (rule mset_eq_length)
  then show ?thesis
    by (simp add: emailIntro_def unreadCount_def importantCount_def l)
qed

lemma forEachEmail_narrates:
  assumes "\<forall>p \<in> set ies. sender (snd p) \<noteq> None"
  shows "forEachEmail clk s ies summary =
           Inr (summary @ concat (map (\<lambda>(index, e). case emailEntry clk s index e of
                                                       Inr entry \<Rightarrow> entry
                                                     | Inl err \<Rightarrow> []) ies))"
  using assms
proof (induction ies arbitrary: summary)
  case Nil
  then show ?case by simp
next
  case (Cons p ies)
  obtain index e where p: "p = (index, e)" by (cases p)
  from Cons.prems p obtain f where f: "sender e = Some f" by auto
  then obtain entry where entry: "emailEntry clk s index e = Inr entry"
    by (simp add: emailEntry_def Let_def)
  from Cons.prems have "\<forall>p \<in> set ies. sender (snd p) \<noteq> None" by simp
  from Cons.IH [OF this, of "summary @ entry"] p entry show ?case by simp
qed

lemma generateEmailSummary_narration:
  assumes "\<forall>e \<in> set emails. sender e \<noteq> None"
  shows "generateEmailSummary clk emails s =
           Inr (emailIntro emails @ narration clk s (emailsToSummarize emails s) @ emailOutro)"
proof -
  have "\<forall>p \<in> set (indexed (emailsToSummarize emails s)). sender (snd p) \<noteq> None"
    using assms set_emailsToSummarize indexed_snd by blast
  from forEachEmail_narrates [OF this, of clk s "emailIntro emails"]
  show ?thesis
    by (simp add: generateEmailSummary_def narration_def)
qed

text \<open>
  C3, as the code has it. When every email has a sender, the report of
  \<open>generateEmailSummary\<close> is the opening, the numbered entries of the narrated emails and the
  closing hint. For \<open>concise\<close>, \<open>medium\<close> and \<open>detailed\<close> the narrated emails are the first
  3, 5 and 7 of the list sorted by importance flag and then recency, or all of them when
  there are fewer; for \<open>everything\<close> they are all the emails in their input order, not
  sorted. The sorted list is a permutation of the input in which no email is behind one
  that it precedes in that order, and emails tied on both keys keep their input order. So
  below \<open>everything\<close> the report is the same for every arrangement of the same emails when
  no two of them are tied; among tied emails the input order shows.
\<close>

theorem email_summary_narrates_by_verbosity:
  assumes "\<forall>e \<in> set emails. sender e \<noteq> None"
  shows
  "(summaryLength s \<noteq> Everything \<longrightarrow>
      generateEmailSummary clk emails s =
        Inr (emailIntro emails @
             narration clk s (take (spec_limit (summaryLength s) emails)
                                   (sort_key importance_key emails)) @
             emailOutro) \<and>
      length (take (spec_limit (summaryLength s) emails) (sort_key importance_key emails)) =
        min (spec_limit (summaryLength s) emails) (length emails)) \<and>
   (summaryLength s = Everything \<longrightarrow>
      generateEmailSummary clk emails s =
        Inr (emailIntro emails @ narration clk s emails @ emailOutro)) \<and>
   mset (sort_key importance_key emails) = mset emails \<and>
   sorted_wrt (\<lambda>a b. \<not> importance_precedes b a) (sort_key importance_key emails) \<and>
   (\<forall>x. filter (importance_tied x) (sort_key importance_key emails) =
        filter (importance_tied x) emails) \<and>
   (summaryLength s \<noteq> Everything \<and> mset emails' = mset emails \<and>
    (\<forall>a \<in> set emails. \<forall>b \<in> set emails. importance_tied a b \<longrightarrow> a = b) \<longrightarrow>
      generateEmailSummary clk emails' s = generateEmailSummary clk emails s)"
proof -
  note g = generateEmailSummary_narration [OF assms, of clk s]
  have a: "generateEmailSummary clk emails s =
        Inr (emailIntro emails @
             narration clk s (take (spec_limit (summaryLength s) emails)
                                   (sort_key importance_key emails)) @
             emailOutro)"
    if "summaryLength s \<noteq> Everything"
    using that g by (simp add: emailsToSummarize_eq spec_emailsToSummarize_def)
  have b: "generateEmailSummary clk emails s =
        Inr (emailIntro emails @ narration clk s emails @ emailOutro)"
    if "summaryLength s = Everything"
    using that g by (simp add: emailsToSummarize_eq)
  have c: "generateEmailSummary clk emails' s = generateEmailSummary clk emails s"
    if ne: "summaryLength s \<noteq> Everything" and m: "mset emails' = mset emails"
      and t: "\<forall>a \<in> set emails. \<forall>b \<in> set emails. importance_tied a b \<longrightarrow> a = b"
  proof -
    have "length emails' = length emails" using m by (rule mset_eq_length)
    then have "spec_emailsToSummarize emails' s = spec_emailsToSummarize emails s"
      by (cases "summaryLength s")
         (simp_all add: spec_emailsToSummarize_def spec_limit_def
            importance_sort_permuted [OF m t])
    with ne have "emailsToSummarize emails' s = emailsToSummarize emails s"
      by (simp add: emailsToSummarize_eq)
    then show ?thesis
      by (simp add: generateEmailSummary_def emailIntro_permuted [OF m])
  qed
  have d: "length (take (spec_limit (summaryLength s) emails)
                         (sort_key importance_key emails)) =
             min (spec_limit (summaryLength s) emails) (length emails)"
    by simp
  have e: "mset (sort_key importance_key emails) = mset emails"
    by simp
  show ?thesis
    using a b c d e importance_sort_ordered [of emails] importance_sort_stable [of _ emails]
    by blast
qed

text \<open>
  C3, as the code has it, at five emails: \<open>concise\<close> narrates the important one, then the
  most recent, then the first of the two tied at 9:00; \<open>everything\<close> narrates all five as
  they came; and two emails that are not tied give one \<open>concise\<close> report in either order.
\<close>

theorem email_summary_narrates_by_verbosity_witness:
  \<open>list_all (\<lambda>e. sender e \<noteq> None) inbox \<and>
   generateEmailSummary clkNoon inbox settingsConcise =
     Inr (''You have 5 emails in your inbox, 2 unread, with 1 marked as important. Would you like to hear about them?'' @
          newline @ newline @
          ''1. From Dee at 8:00am, subject: Outage (Important) (Unread).'' @ newline @ newline @
          ''2. From Bob at 10:00am, subject: Lunch.'' @ newline @ newline @
          ''3. From Ann at 9:00am, subject: Minutes (Unread).'' @ newline @ newline @
          ''You can say "ignore", "respond now", "respond later", or "mark as important" after each email.'') \<and>
   generateEmailSummary clkNoon inbox settingsEverything =
     Inr (emailIntro inbox @ narration clkNoon settingsEverything inbox @ emailOutro) \<and>
   mset [mailNew, mailOld] = mset [mailOld, mailNew] \<and>
   generateEmailSummary clkNoon [mailNew, mailOld] settingsConcise =
     generateEmailSummary clkNoon [mailOld, mailNew] settingsConcise\<close>
proof -
  have h: "\<forall>e \<in> set inbox. sender e \<noteq> None"
    by (simp add: inbox_def mailOld_def mailTwin_def mailNew_def mailUrgent_def mailNote_def)
  have h2: "\<forall>e \<in> set [mailOld, mailNew]. sender e \<noteq> None"
    by (simp add: mailOld_def mailNew_def)
  have c: "summaryLength settingsConcise \<noteq> Everything"
    and e: "summaryLength settingsEverything = Everything"
    by (simp_all add: settingsConcise_def settingsEverything_def)
  have t: "take (spec_limit (summaryLength settingsConcise) inbox) (sort_key importance_key inbox) =
             [mailUrgent, mailNew, mailOld]"
    by (simp add: spec_limit_def importance_key_def less_eq_prod_def inbox_def
          settingsConcise_def mailOld_def mailTwin_def mailNew_def mailUrgent_def mailNote_def)
  have n: \<open>emailIntro inbox @ narration clkNoon settingsConcise [mailUrgent, mailNew, mailOld] @
             emailOutro =
          ''You have 5 emails in your inbox, 2 unread, with 1 marked as important. Would you like to hear about them?'' @
          newline @ newline @
          ''1. From Dee at 8:00am, subject: Outage (Important) (Unread).'' @ newline @ newline @
          ''2. From Bob at 10:00am, subject: Lunch.'' @ newline @ newline @
          ''3. From Ann at 9:00am, subject: Minutes (Unread).'' @ newline @ newline @
          ''You can say "ignore", "respond now", "respond later", or "mark as important" after each email.''\<close>
    by (simp add: narration_def emailIntro_def emailEntry_def emailOutro_def unreadCount_def
          importantCount_def indexed_def upt_rec eval_time inbox_def clkNoon_def
          settingsConcise_def mailOld_def mailTwin_def mailNew_def mailUrgent_def mailNote_def
          Let_def)
  have m: "mset [mailNew, mailOld] = mset [mailOld, mailNew]"
    by (simp add: add.commute)
  have u: "\<forall>a \<in> set [mailOld, mailNew]. \<forall>b \<in> set [mailOld, mailNew].
             importance_tied a b \<longrightarrow> a = b"
    by (simp add: importance_tied_def mailOld_def mailNew_def)
  have a: "generateEmailSummary clkNoon inbox settingsConcise =
             Inr (emailIntro inbox @
                  narration clkNoon settingsConcise [mailUrgent, mailNew, mailOld] @ emailOutro)"
    using c t email_summary_narrates_by_verbosity [OF h, of settingsConcise clkNoon] by simp
  have b: "generateEmailSummary clkNoon inbox settingsEverything =
             Inr (emailIntro inbox @ narration clkNoon settingsEverything inbox @ emailOutro)"
    using e email_summary_narrates_by_verbosity [OF h, of settingsEverything clkNoon] by simp
  have p: "generateEmailSummary clkNoon [mailNew, mailOld] settingsConcise =
             generateEmailSummary clkNoon [mailOld, mailNew] settingsConcise"
    using c m u
      email_summary_narrates_by_verbosity
        [OF h2, of settingsConcise clkNoon "[mailNew, mailOld]"]
    by blast
  from h have "list_all (\<lambda>e. sender e \<noteq> None) inbox" by (simp add: list_all_iff)
  then show ?thesis using a b m p by (simp only: n)
qed

text \<open>
  C3, as the specification words it, fails: with \<open>everything\<close> the report narrates an older
  email in front of a newer one as they came, where the report of the sorted list has the
  newer one first; with \<open>concise\<close> two tied emails are narrated in their input order, so
  the two arrangements give two reports; and with \<open>concise\<close> two emails give two entries,
  not three.
\<close>

theorem email_summary_narration_counterexample:
  "generateEmailSummary clkNoon [mailOld, mailNew] settingsEverything \<noteq>
     spec_generateEmailSummary clkNoon [mailOld, mailNew] settingsEverything \<and>
   mset [mailTwin, mailOld] = mset [mailOld, mailTwin] \<and>
   generateEmailSummary clkNoon [mailTwin, mailOld] settingsConcise \<noteq>
     generateEmailSummary clkNoon [mailOld, mailTwin] settingsConcise \<and>
   (case generateEmailSummary clkNoon [mailOld, mailNew] settingsConcise of
      Inr summary \<Rightarrow> str_includes summary ''2. From'' \<and> \<not> str_includes summary ''3. From''
    | Inl err \<Rightarrow> False)"
  by (simp add: eval_emails eval_time spec_generateEmailSummary_def narration_def
        spec_emailsToSummarize_def spec_limit_def importance_key_def less_eq_prod_def
        clkNoon_def settingsEverything_def settingsConcise_def mailOld_def mailNew_def
        mailTwin_def Let_def add.commute)

text \<open>
  C9, as the code has it. When every email has a sender, the summary is produced and opens
  with the total and the unread count, followed by the important count only when it is
  positive, and then the full stop: with no important email the sentence ends after
  \<open>unread\<close>.
\<close>

theorem email_summary_opening:
  assumes "\<forall>e \<in> set emails. sender e \<noteq> None"
  shows "\<exists>rest. generateEmailSummary clk emails s =
           Inr (''You have '' @ showNat (length emails) @ '' emails in your inbox, '' @
                showNat (length (filter (\<lambda>e. \<not> isRead e) emails)) @ '' unread'' @
                (if 0 < length (filter isImportant emails) then
                   '', with '' @ showNat (length (filter isImportant emails)) @
                   '' marked as important''
                 else []) @
                ''.'' @ rest)"
proof -
  have "\<forall>p \<in> set (indexed (emailsToSummarize emails s)). sender (snd p) \<noteq> None"
    using assms set_emailsToSummarize indexed_snd by blast
  from forEachEmail_extends [OF this]
  obtain rest where
    "forEachEmail clk s (indexed (emailsToSummarize emails s)) (emailIntro emails) =
       Inr (emailIntro emails @ rest)"
    by blast
  then have "generateEmailSummary clk emails s = Inr (emailIntro emails @ rest @ emailOutro)"
    by (simp add: generateEmailSummary_def)
  then show ?thesis
    by (simp add: emailIntro_def unreadCount_def importantCount_def)
qed

text \<open>
  C9, as the code has it, at the scenario of the specification: five emails, two unread,
  one important.
\<close>

theorem email_summary_opening_witness:
  "list_all (\<lambda>e. sender e \<noteq> None) inbox \<and>
   (\<exists>rest. generateEmailSummary clkNoon inbox settingsConcise =
      Inr (''You have 5 emails in your inbox, 2 unread, with 1 marked as important.'' @ rest))"
proof -
  have h: "\<forall>e \<in> set inbox. sender e \<noteq> None"
    by (simp add: inbox_def mailOld_def mailTwin_def mailNew_def mailUrgent_def mailNote_def)
  have n: "length inbox = 5" "length (filter (\<lambda>e. \<not> isRead e) inbox) = 2"
    "length (filter isImportant inbox) = 1"
    by (simp_all add: inbox_def mailOld_def mailTwin_def mailNew_def mailUrgent_def
          mailNote_def)
  have d: "showNat 5 = ''5''" "showNat 2 = ''2''" "showNat (Suc 0) = ''1''"
    by (simp_all add: showNat.simps)
  from h have "list_all (\<lambda>e. sender e \<noteq> None) inbox" by (simp add: list_all_iff)
  then show ?thesis
    using email_summary_opening [OF h, of clkNoon settingsConcise] by (simp add: n d)
qed

text \<open>
  C9, as the specification words it, fails: the summary of one unread, unimportant email
  opens \<open>You have 1 emails in your inbox, 1 unread.\<close> and nowhere reports an important
  count.
\<close>

theorem email_summary_opening_counterexample:
  "(case generateEmailSummary clkNoon [mailOld] settingsConcise of
      Inr summary \<Rightarrow>
        take 42 summary = ''You have 1 emails in your inbox, 1 unread.'' \<and>
        \<not> str_includes summary ''marked as important''
    | Inl err \<Rightarrow> False)"
  by (simp add: eval_emails eval_time clkNoon_def settingsConcise_def mailOld_def Let_def)


section \<open>Schedule conflicts\<close>

lemma pairConflict_eq:
  "pairConflict a b = (if overlapTest a b then [spec_conflict a b] else [])"
  by (simp add: pairConflict_def overlapTest_def spec_conflict_def Let_def max_def min_def)

lemma innerLoop_eq:
  "innerLoop events i j acc =
     acc @ concat (map (\<lambda>j. pairConflict (events ! i) (events ! j)) [j..<length events])"
proof (induction events i j acc rule: innerLoop.induct)
  case (1 events i j conflicts)
  show ?case
  proof (cases "j < length events")
    case True
    then have "[j..<length events] = j # [j + 1..<length events]"
      by (simp add: upt_conv_Cons)
    with True "1.IH" show ?thesis
      by (subst innerLoop.simps) simp
  next
    case False
    then show ?thesis by (subst innerLoop.simps) simp
  qed
qed

lemma outerLoop_eq:
  "outerLoop events i acc =
     acc @ concat (map (\<lambda>i. concat (map (\<lambda>j. pairConflict (events ! i) (events ! j))
                                        [i + 1..<length events]))
                       [i..<length events])"
proof (induction events i acc rule: outerLoop.induct)
  case (1 events i conflicts)
  show ?case
  proof (cases "i < length events")
    case True
    then have "[i..<length events] = i # [i + 1..<length events]"
      by (simp add: upt_conv_Cons)
    with True "1.IH" show ?thesis
      by (subst outerLoop.simps) (simp add: innerLoop_eq)
  next
    case False
    then show ?thesis by (subst outerLoop.simps) simp
  qed
qed

lemma findScheduleConflicts_pairsBy:
  "findScheduleConflicts events = pairsBy overlapTest events"
  by (simp add: findScheduleConflicts_def outerLoop_eq pairsBy_def pairConflict_eq)

lemma spec_intersect_iff:
  "spec_intersect a b \<longleftrightarrow> max (start a) (start b) < min (endTime a) (endTime b)"
proof
  assume "spec_intersect a b"
  then obtain t where "t \<in> {start a..<endTime a}" "t \<in> {start b..<endTime b}"
    unfolding spec_intersect_def by blast
  then show "max (start a) (start b) < min (endTime a) (endTime b)" by auto
next
  assume "max (start a) (start b) < min (endTime a) (endTime b)"
  then have "max (start a) (start b) \<in> {start a..<endTime a} \<inter> {start b..<endTime b}"
    by auto
  then show "spec_intersect a b" unfolding spec_intersect_def by blast
qed

lemma overlapTest_proper:
  assumes "start a < endTime a" and "start b < endTime b"
  shows "overlapTest a b \<longleftrightarrow> spec_intersect a b"
  using assms by (auto simp add: overlapTest_def spec_intersect_iff)

lemma pairsBy_cong:
  assumes "\<And>i j. i < j \<Longrightarrow> j < length events \<Longrightarrow>
             p (events ! i) (events ! j) = q (events ! i) (events ! j)"
  shows "pairsBy p events = pairsBy q events"
  unfolding pairsBy_def
  by (intro arg_cong [where f = concat] map_cong refl) (simp add: assms)

lemma pairsBy_none:
  assumes "\<And>i j. i < j \<Longrightarrow> j < length events \<Longrightarrow> \<not> p (events ! i) (events ! j)"
  shows "pairsBy p events = []"
  unfolding pairsBy_def using assms by simp

text \<open>
  C5, as the code has it. \<open>findScheduleConflicts\<close> reports exactly the pairs \<open>(i, j)\<close> with
  \<open>i < j\<close>, \<open>start_i < end_j\<close> and \<open>start_j < end_i\<close>, each once, in ascending order of \<open>i\<close>
  and then of \<open>j\<close>, with the later start and the earlier end. When every item starts before
  it ends, these are exactly the pairs whose half-open intervals intersect, and the result
  is empty when the intervals are pairwise disjoint.
\<close>

theorem findScheduleConflicts_pairs:
  "findScheduleConflicts events = pairsBy overlapTest events \<and>
   ((\<forall>e \<in> set events. start e < endTime e) \<longrightarrow>
      findScheduleConflicts events = spec_findOverlaps events) \<and>
   ((\<forall>e \<in> set events. start e < endTime e) \<and>
    (\<forall>i j. i < j \<and> j < length events \<longrightarrow>
           {start (events ! i)..<endTime (events ! i)} \<inter>
           {start (events ! j)..<endTime (events ! j)} = {}) \<longrightarrow>
      findScheduleConflicts events = [])"
proof -
  have proper: "findScheduleConflicts events = spec_findOverlaps events"
    if p: "\<forall>e \<in> set events. start e < endTime e"
  proof -
    have "pairsBy overlapTest events = pairsBy spec_intersect events"
    proof (rule pairsBy_cong)
      fix i j assume "i < j" "j < length events"
      then have "events ! i \<in> set events" "events ! j \<in> set events" by simp_all
      with p show "overlapTest (events ! i) (events ! j) =
                   spec_intersect (events ! i) (events ! j)"
        by (simp add: overlapTest_proper)
    qed
    then show ?thesis
      by (simp add: findScheduleConflicts_pairsBy spec_findOverlaps_def)
  qed
  have disjoint: "findScheduleConflicts events = []"
    if p: "\<forall>e \<in> set events. start e < endTime e"
      and d: "\<forall>i j. i < j \<and> j < length events \<longrightarrow>
                {start (events ! i)..<endTime (events ! i)} \<inter>
                {start (events ! j)..<endTime (events ! j)} = {}"
  proof -
    from d have "pairsBy spec_intersect events = []"
      by (intro pairsBy_none) (simp add: spec_intersect_def)
    with proper [OF p] show ?thesis by (simp add: spec_findOverlaps_def)
  qed
  show ?thesis
    using findScheduleConflicts_pairsBy proper disjoint by blast
qed

text \<open>
  C5, as the code has it, at the scenario of the specification (9:00 to 10:00 and 9:30 to
  10:30 give one conflict from 9:30 to 10:00) and at two disjoint events.
\<close>

theorem findScheduleConflicts_pairs_witness:
  "start evStandup < endTime evStandup \<and> start evReview < endTime evReview \<and>
   start evLunch < endTime evLunch \<and>
   findScheduleConflicts [evStandup, evReview, evLunch] =
     [\<lparr>event1 = evStandup, event2 = evReview, overlapStart = 1715333400000,
       overlapEnd = 1715335200000, duration = 30\<rparr>] \<and>
   {start evStandup..<endTime evStandup} \<inter> {start evLunch..<endTime evLunch} = {} \<and>
   findScheduleConflicts [evStandup, evLunch] = []"
proof -
  have p: "start evStandup < endTime evStandup" "start evReview < endTime evReview"
    "start evLunch < endTime evLunch"
    by (simp_all add: evStandup_def evReview_def evLunch_def)
  have d: "{start evStandup..<endTime evStandup} \<inter> {start evLunch..<endTime evLunch} = {}"
    by (simp add: evStandup_def evLunch_def)
  have e: "pairsBy overlapTest [evStandup, evReview, evLunch] =
          [\<lparr>event1 = evStandup, event2 = evReview, overlapStart = 1715333400000,
            overlapEnd = 1715335200000, duration = 30\<rparr>]"
    by (simp add: pairsBy_def overlapTest_def spec_conflict_def upt_rec evStandup_def
          evReview_def evLunch_def)
  have a: "findScheduleConflicts [evStandup, evReview, evLunch] =
             [\<lparr>event1 = evStandup, event2 = evReview, overlapStart = 1715333400000,
               overlapEnd = 1715335200000, duration = 30\<rparr>]"
    using e findScheduleConflicts_pairs [of "[evStandup, evReview, evLunch]"] by simp
  have q: "\<forall>e \<in> set [evStandup, evLunch]. start e < endTime e"
    using p by simp
  have "\<forall>i j. i < j \<and> j < length [evStandup, evLunch] \<longrightarrow>
          {start ([evStandup, evLunch] ! i)..<endTime ([evStandup, evLunch] ! i)} \<inter>
          {start ([evStandup, evLunch] ! j)..<endTime ([evStandup, evLunch] ! j)} = {}"
    using d by (auto simp add: less_Suc_eq)
  with q have b: "findScheduleConflicts [evStandup, evLunch] = []"
    using findScheduleConflicts_pairs [of "[evStandup, evLunch]"] by blast
  show ?thesis
    using p d a b by simp
qed

text \<open>
  C5, as the specification words it, fails on an event of no length inside another: the
  half-open interval of the reminder at noon is empty, so it intersects nothing and the two
  intervals are disjoint, yet the pair is reported, with an overlap from noon to noon.
\<close>

theorem findScheduleConflicts_empty_interval_counterexample:
  "{start evReminder..<endTime evReminder} \<inter> {start evWorkshop..<endTime evWorkshop} = {} \<and>
   spec_findOverlaps [evReminder, evWorkshop] = [] \<and>
   findScheduleConflicts [evReminder, evWorkshop] =
     [\<lparr>event1 = evReminder, event2 = evWorkshop, overlapStart = 1715342400000,
       overlapEnd = 1715342400000, duration = 0\<rparr>]"
  by (simp add: findScheduleConflicts_def outerLoop.simps innerLoop.simps pairConflict_def
        spec_findOverlaps_def pairsBy_def spec_intersect_def upt_rec evReminder_def
        evWorkshop_def)


section \<open>The calendar summary and the clock\<close>

lemmas eval_calendar = generateCalendarSummary_def array_sort_def findScheduleConflicts_def
  outerLoop.simps innerLoop.simps pairConflict_def forEach_def indexed_def todayEntry_def
  tomorrowEntry_def conflictEntry_def priorityEntry_def plural_def locationSuffix_def
  calendarOutro_def upt_rec

lemma formatTime_zone:
  assumes "tzOffsetMin c1 = tzOffsetMin c2"
  shows "formatTime c1 = formatTime c2"
  by (rule ext) (simp add: formatTime_def getHours_def getMinutes_def localMs_def assms)

lemma emailEntry_zone:
  assumes "tzOffsetMin c1 = tzOffsetMin c2"
  shows "emailEntry c1 = emailEntry c2"
  by (intro ext) (simp add: emailEntry_def formatTime_zone [OF assms])

lemma forEachEmail_zone:
  assumes "tzOffsetMin c1 = tzOffsetMin c2"
  shows "forEachEmail c1 s ies summary = forEachEmail c2 s ies summary"
proof (induction ies arbitrary: summary)
  case Nil
  then show ?case by simp
next
  case (Cons p ies)
  obtain index e where "p = (index, e)" by (cases p)
  with Cons.IH show ?case
    by (simp add: emailEntry_zone [OF assms] split: sum.split)
qed

lemma generateEmailSummary_zone:
  assumes "tzOffsetMin c1 = tzOffsetMin c2"
  shows "generateEmailSummary c1 emails s = generateEmailSummary c2 emails s"
  by (simp add: generateEmailSummary_def forEachEmail_zone [OF assms])

lemma calendar_entries_zone:
  assumes "tzOffsetMin c1 = tzOffsetMin c2"
  shows "todayEntry c1 = todayEntry c2" and "tomorrowEntry c1 = tomorrowEntry c2"
    and "conflictEntry c1 = conflictEntry c2" and "priorityEntry c1 = priorityEntry c2"
proof -
  note ft = formatTime_zone [OF assms]
  show "todayEntry c1 = todayEntry c2" by (intro ext) (simp add: todayEntry_def ft)
  show "tomorrowEntry c1 = tomorrowEntry c2" by (intro ext) (simp add: tomorrowEntry_def ft)
  show "conflictEntry c1 = conflictEntry c2" by (intro ext) (simp add: conflictEntry_def ft)
  show "priorityEntry c1 = priorityEntry c2" by (intro ext) (simp add: priorityEntry_def ft)
qed

lemma generateCalendarSummary_day:
  assumes "tzOffsetMin c1 = tzOffsetMin c2"
    and "startOfDay c1 (nowMs c1) = startOfDay c2 (nowMs c2)"
  shows "generateCalendarSummary c1 events s = generateCalendarSummary c2 events s"
  unfolding generateCalendarSummary_def calendar_entries_zone [OF assms(1)] assms(2)
  by (rule refl)

text \<open>
  C4, as the code has it. In one time zone, the email summary is the same at every current
  moment: it depends on the items and the preferences only. The calendar summary reads the
  current moment, and depends on it through the local day it falls in: in one time zone,
  two moments of the same local day give the same summary of the same items and
  preferences.
\<close>

theorem summaries_and_the_current_moment:
  "(tzOffsetMin c1 = tzOffsetMin c2 \<longrightarrow>
      generateEmailSummary c1 emails s = generateEmailSummary c2 emails s) \<and>
   (tzOffsetMin c1 = tzOffsetMin c2 \<and>
    startOfDay c1 (nowMs c1) = startOfDay c2 (nowMs c2) \<longrightarrow>
      generateCalendarSummary c1 events s = generateCalendarSummary c2 events s)"
  using generateEmailSummary_zone generateCalendarSummary_day by blast

text \<open>C4, as the code has it, at noon and in the evening of one day, and at the next noon.\<close>

theorem summaries_and_the_current_moment_witness:
  "tzOffsetMin clkNoon = tzOffsetMin clkEvening \<and>
   startOfDay clkNoon (nowMs clkNoon) = startOfDay clkEvening (nowMs clkEvening) \<and>
   nowMs clkNoon \<noteq> nowMs clkEvening \<and>
   generateCalendarSummary clkNoon [evStandup, evReview] settingsEverything =
     generateCalendarSummary clkEvening [evStandup, evReview] settingsEverything \<and>
   tzOffsetMin clkNoon = tzOffsetMin clkNextDay \<and>
   nowMs clkNoon \<noteq> nowMs clkNextDay \<and>
   generateEmailSummary clkNoon inbox settingsEverything =
     generateEmailSummary clkNextDay inbox settingsEverything"
proof -
  have h: "tzOffsetMin clkNoon = tzOffsetMin clkEvening"
    "startOfDay clkNoon (nowMs clkNoon) = startOfDay clkEvening (nowMs clkEvening)"
    "tzOffsetMin clkNoon = tzOffsetMin clkNextDay"
    by (simp_all add: clkNoon_def clkEvening_def clkNextDay_def startOfDay_def localMs_def)
  have n: "nowMs clkNoon \<noteq> nowMs clkEvening" "nowMs clkNoon \<noteq> nowMs clkNextDay"
    by (simp_all add: clkNoon_def clkEvening_def clkNextDay_def)
  show ?thesis
    using h n
      summaries_and_the_current_moment
        [where ?c1.0 = clkNoon and ?c2.0 = clkEvening and s = settingsEverything
           and events = "[evStandup, evReview]"]
      summaries_and_the_current_moment
        [where ?c1.0 = clkNoon and ?c2.0 = clkNextDay and s = settingsEverything
           and emails = inbox]
    by blast
qed

text \<open>
  C4, as the specification words it, fails for the calendar summary: the same event and
  the same preferences give one summary at noon of the event's day and another at noon of
  the day after.
\<close>

theorem calendar_summary_depends_on_now_counterexample:
  "tzOffsetMin clkNoon = tzOffsetMin clkNextDay \<and>
   generateCalendarSummary clkNoon [evStandup] settingsConcise \<noteq>
   generateCalendarSummary clkNextDay [evStandup] settingsConcise"
  by (simp add: eval_calendar eval_time clkNoon_def clkNextDay_def evStandup_def
        settingsConcise_def Let_def)


section \<open>The command dispatcher\<close>

lemmas eval_dispatch = processCommand_def parseCommand_def handleReadEmails_def
  handleReadAgenda_def tryCatch_def andThen_def summarizeWithAI_def

text \<open>
  C2, as the code has it. The handlers do not rank: the message of a \<open>READ_EMAILS\<close> or
  \<open>READ_AGENDA\<close> command is the summary of the fetched items as they were fetched, and the
  fixed apology when the fetch or the summary fails. No exception leaves \<open>processCommand\<close>.
\<close>

theorem read_commands_summarize_fetched:
  \<open>(parseCommand (regex w) u = READ_EMAILS \<longrightarrow>
      processCommand w u s =
        Inr \<lparr>message =
               (case fetchEmails w s of
                  Inr emails \<Rightarrow>
                    (case generateEmailSummary (clock w) emails s of
                       Inr summary \<Rightarrow> summary
                     | Inl err \<Rightarrow> ''I'm sorry, I couldn't read your emails at this time. Please try again later.'')
                | Inl err \<Rightarrow> ''I'm sorry, I couldn't read your emails at this time. Please try again later.'')\<rparr>) \<and>
   (parseCommand (regex w) u = READ_AGENDA \<longrightarrow>
      processCommand w u s =
        Inr \<lparr>message =
               (case fetchCalendarEvents w s of
                  Inr events \<Rightarrow> generateCalendarSummary (clock w) events s
                | Inl err \<Rightarrow> ''I'm sorry, I couldn't read your agenda at this time. Please try again later.'')\<rparr>)\<close>
  by (simp add: processCommand_def handleReadEmails_def handleReadAgenda_def tryCatch_def
        andThen_def summarizeWithAI_def split: sum.split)

text \<open>
  C2, as the code has it, at two commands: the emails are narrated in the order fetched,
  the older one first, and the agenda is the summary of the fetched event.
\<close>

theorem read_commands_summarize_fetched_witness:
  \<open>parseCommand (regex worldUp) ''Read my emails'' = READ_EMAILS \<and>
   fetchEmails worldUp settingsEverything = Inr [mailOld, mailNew] \<and>
   processCommand worldUp ''Read my emails'' settingsEverything =
     Inr \<lparr>message =
       ''You have 2 emails in your inbox, 1 unread. Would you like to hear about them?'' @
       newline @ newline @
       ''1. From Ann at 9:00am, subject: Minutes (Unread).'' @ newline @
       ''   Preview: See notes.'' @ newline @ newline @
       ''2. From Bob at 10:00am, subject: Lunch.'' @ newline @
       ''   Preview: At noon?'' @ newline @ newline @
       ''You can say "ignore", "respond now", "respond later", or "mark as important" after each email.''\<rparr> \<and>
   parseCommand (regex worldUp) ''read my agenda'' = READ_AGENDA \<and>
   processCommand worldUp ''read my agenda'' settingsEverything =
     Inr \<lparr>message = generateCalendarSummary clkNoon [evStandup] settingsEverything\<rparr>\<close>
proof -
  have p: "parseCommand (regex worldUp) ''Read my emails'' = READ_EMAILS"
    "parseCommand (regex worldUp) ''read my agenda'' = READ_AGENDA"
    by (simp_all add: parseCommand_def eval_text worldUp_def)
  have f: "fetchEmails worldUp settingsEverything = Inr [mailOld, mailNew]"
    "fetchCalendarEvents worldUp settingsEverything = Inr [evStandup]"
    "clock worldUp = clkNoon"
    by (simp_all add: worldUp_def)
  have g: \<open>generateEmailSummary clkNoon [mailOld, mailNew] settingsEverything =
     Inr (''You have 2 emails in your inbox, 1 unread. Would you like to hear about them?'' @
       newline @ newline @
       ''1. From Ann at 9:00am, subject: Minutes (Unread).'' @ newline @
       ''   Preview: See notes.'' @ newline @ newline @
       ''2. From Bob at 10:00am, subject: Lunch.'' @ newline @
       ''   Preview: At noon?'' @ newline @ newline @
       ''You can say "ignore", "respond now", "respond later", or "mark as important" after each email.'')\<close>
    by (simp add: eval_emails eval_time clkNoon_def settingsEverything_def mailOld_def
          mailNew_def Let_def)
  show ?thesis
    using p f g
      read_commands_summarize_fetched [of worldUp "''Read my emails''" settingsEverything]
      read_commands_summarize_fetched [of worldUp "''read my agenda''" settingsEverything]
    by simp
qed

text \<open>
  C2, as the specification words it, fails: with \<open>everything\<close> the handler narrates the
  fetched emails in the order fetched, and the composition with the ranker narrates the
  priority contact's newer email first.
\<close>

theorem read_emails_not_ranked_counterexample:
  "processCommand worldUp ''read my emails'' settingsEverything \<noteq>
   spec_readEmails worldUp settingsEverything"
  by (simp add: eval_dispatch eval_text eval_emails eval_time spec_readEmails_def
        prioritizeItems_def prioritize_cmp_def priorityContact_def array_includes_def
        worldUp_def clkNoon_def settingsEverything_def mailOld_def mailNew_def Let_def)

text \<open>
  C7. When the calendar fetch fails during a \<open>READ_AGENDA\<close> command, \<open>processCommand\<close>
  returns the fixed apology as its message: the result is a value, not an exception, and
  the error of the fetch is not in it.
\<close>

theorem read_agenda_fetch_failure:
  assumes "parseCommand (regex w) u = READ_AGENDA"
    and "fetchCalendarEvents w s = Inl err"
  shows \<open>processCommand w u s =
           Inr \<lparr>message = ''I'm sorry, I couldn't read your agenda at this time. Please try again later.''\<rparr>\<close>
  using assms
  by (simp add: processCommand_def handleReadAgenda_def tryCatch_def andThen_def)

text \<open>C7, at a calendar source that rejects.\<close>

theorem read_agenda_fetch_failure_witness:
  \<open>parseCommand (regex worldDown) ''What do I have to do today?'' = READ_AGENDA \<and>
   fetchCalendarEvents worldDown settingsConcise = Inl (RejectedPromise ''offline'') \<and>
   processCommand worldDown ''What do I have to do today?'' settingsConcise =
     Inr \<lparr>message = ''I'm sorry, I couldn't read your agenda at this time. Please try again later.''\<rparr>\<close>
proof -
  have p: "parseCommand (regex worldDown) ''What do I have to do today?'' = READ_AGENDA"
    by (simp add: parseCommand_def eval_text worldDown_def)
  have f: "fetchCalendarEvents worldDown settingsConcise = Inl (RejectedPromise ''offline'')"
    by (simp add: worldDown_def)
  show ?thesis using p f read_agenda_fetch_failure [OF p f] by simp
qed

end
